theory Spec2Isabelle
  imports Main "HOL-Library.Word" "HOL-Library.Sublist"
begin

section \<open>The csearch command: data model\<close>

text \<open>
  The command \<^verbatim>\<open>cmd/csearch/csearch.go\<close> compiles a content pattern and two lists of
  file name patterns, asks the index for a posting list, narrows it by file name and
  walks the remaining candidates. Two versions of the command are modelled: the
  current one (flags \<^verbatim>\<open>--allow-files\<close>, \<^verbatim>\<open>--block-files\<close>,
  \<^verbatim>\<open>--only-list-candidates\<close>) and the earlier one (flag \<^verbatim>\<open>-f\<close>), whose
  definitions carry the suffix \<open>_old\<close>.

  A posting list is a Go \<^verbatim>\<open>[]uint32\<close>.
\<close>

type_synonym fileid = "32 word"

text \<open>
  Modelled from the spec: the struct \<^verbatim>\<open>regexp.Grep\<close>, which is declared in package
  \<^verbatim>\<open>regexp\<close> and not in the command. Only the fields that the command touches are
  kept: it assigns \<^verbatim>\<open>Regexp\<close>, decrements and tests \<^verbatim>\<open>Limit\<close> and (in the
  earlier version) reads \<^verbatim>\<open>Match\<close>. The spec calls the budget "a mutable integer
  counting remaining allowed match emissions" and the outcome "a boolean". In Go the
  budget is a fixed-width integer whose arithmetic wraps around; it is taken as the
  64-bit signed \<^verbatim>\<open>int\<close>, read with \<open>sint\<close>. \<^verbatim>\<open>Regexp\<close> is a pointer,
  \<open>None\<close> while it is nil.
\<close>

type_synonym goint = "64 word"

record 're Grep =
  Regexp :: "'re option"
  Limit :: goint
  Match :: bool

text \<open>
  What the command does to the outside, in the order it does it: the calls on the
  index, the lines it prints itself, the files it hands to \<^verbatim>\<open>g.File\<close> and the
  diagnostics of \<^verbatim>\<open>-verbose\<close>.
\<close>

datatype event =
    LogQuery                \<comment> \<open>\<^verbatim>\<open>log.Printf("query: %s\n", q)\<close>\<close>
  | Opened                  \<comment> \<open>\<^verbatim>\<open>index.Open(index.File())\<close>\<close>
  | Queried bool            \<comment> \<open>\<^verbatim>\<open>ix.PostingQuery\<close>; \<open>True\<close> for the query \<^verbatim>\<open>QAll\<close>\<close>
  | LogPost nat             \<comment> \<open>\<^verbatim>\<open>"post query identified %d possible files\n"\<close>\<close>
  | Named fileid            \<comment> \<open>\<^verbatim>\<open>ix.Name(fileid)\<close>\<close>
  | LogMatched nat          \<comment> \<open>\<^verbatim>\<open>"filename regexp matched %d files\n"\<close>\<close>
  | Wrote string            \<comment> \<open>\<^verbatim>\<open>fmt.Fprintf(g.Stdout, "%s\n", name)\<close>\<close>
  | Filed string            \<comment> \<open>\<^verbatim>\<open>g.File(name)\<close>\<close>

record 're world =
  grep :: "'re Grep"
  trace :: "event list"

text \<open>
  The packages \<^verbatim>\<open>codesearch/regexp\<close>, \<^verbatim>\<open>codesearch/index\<close> and \<^verbatim>\<open>os\<close> are
  outside the command; what the command calls of them is a parameter of the model.
  \<open>Compile\<close> returns the error or the compiled expression, \<open>MatchString\<close> the
  position of a match or a negative number, \<open>Create\<close> the error of
  \<^verbatim>\<open>os.Create\<close> if there is one, and \<open>File\<close> the \<^verbatim>\<open>Grep\<close> value that
  \<^verbatim>\<open>g.File(name)\<close> leaves behind.
\<close>

record ('re, 'q) collab =
  Compile :: "string \<Rightarrow> string + 're"
  MatchString :: "'re \<Rightarrow> string \<Rightarrow> bool \<Rightarrow> bool \<Rightarrow> int"
  RegexpQuery :: "'re \<Rightarrow> 'q"
  QAll :: "'q"
  PostingQuery :: "'q \<Rightarrow> fileid list"
  Name :: "fileid \<Rightarrow> string"
  File :: "'re Grep \<Rightarrow> string \<Rightarrow> 're Grep"
  Create :: "string \<Rightarrow> string option"

text \<open>The flag variables after \<^verbatim>\<open>flag.Parse()\<close>, and the positional arguments.\<close>

record flags =
  iFlag :: bool
  onlyListCandidates :: bool
  verboseFlag :: bool
  bruteFlag :: bool
  cpuProfile :: string
  allowFiles :: "string list"
  blockFiles :: "string list"
  args :: "string list"

record flags_old =
  iFlag_old :: bool
  verboseFlag_old :: bool
  bruteFlag_old :: bool
  cpuProfile_old :: string
  fFlags :: "string list"
  args_old :: "string list"

text \<open>
  \<^verbatim>\<open>usage()\<close> ends the process with \<^verbatim>\<open>os.Exit(2)\<close>; \<^verbatim>\<open>log.Fatal(err)\<close> prints
  the error and ends it with \<^verbatim>\<open>os.Exit(1)\<close>.
\<close>

datatype failure = UsageExit | LogFatal string

fun exit_status :: "failure \<Rightarrow> int" where
  "exit_status UsageExit = 2"
| "exit_status (LogFatal err) = 1"

definition emit :: "event \<Rightarrow> 're world \<Rightarrow> 're world" where
  "emit e w = w\<lparr>trace := trace w @ [e]\<rparr>"

definition ixName :: "('re, 'q) collab \<Rightarrow> fileid \<Rightarrow> 're world \<Rightarrow> string \<times> 're world" where
  "ixName c fileid w = (Name c fileid, emit (Named fileid) w)"


section \<open>Compiling the patterns\<close>

text \<open>
  \<^verbatim>\<open>pat := "(?m)" + args[0]; if *iFlag { pat = "(?i)" + pat }\<close>
\<close>

definition contentPattern :: "bool \<Rightarrow> string \<Rightarrow> string" where
  "contentPattern i arg =
     (let pat = ''(?m)'' @ arg
      in if i then ''(?i)'' @ pat else pat)"

text \<open>
  The loop over \<^verbatim>\<open>allowFiles\<close> (and the same loop over \<^verbatim>\<open>blockFiles\<close>, and over
  \<^verbatim>\<open>fFlags\<close> in the earlier version): each string is compiled in order and appended;
  the first error is fatal.
\<close>

fun compileLoop ::
  "('re, 'q) collab \<Rightarrow> string list \<Rightarrow> 're list \<Rightarrow> string + 're list" where
  "compileLoop c [] fres = Inr fres"
| "compileLoop c (fFlag # rest) fres =
     (case Compile c fFlag of
        Inl err \<Rightarrow> Inl err
      | Inr fre \<Rightarrow> compileLoop c rest (fres @ [fre]))"

definition compileFiles :: "('re, 'q) collab \<Rightarrow> string list \<Rightarrow> string + 're list" where
  "compileFiles c files =
     (if length files > 0 then compileLoop c files [] else Inr [])"


section \<open>Narrowing the posting list by file name\<close>

text \<open>
  The two inner loops of the current version. Each returns the value of the local
  \<^verbatim>\<open>matches\<close> when the loop is left: the first sets it to false and breaks at the
  first allow expression that does not match (\<^verbatim>\<open>MatchString(name, true, true) < 0\<close>),
  the second at the first block expression that does (\<^verbatim>\<open>>= 0\<close>).
\<close>

fun allowLoop :: "('re, 'q) collab \<Rightarrow> 're list \<Rightarrow> string \<Rightarrow> bool" where
  "allowLoop c [] name = True"
| "allowLoop c (fre # fres) name =
     (if MatchString c fre name True True < 0 then False else allowLoop c fres name)"

fun blockLoop :: "('re, 'q) collab \<Rightarrow> 're list \<Rightarrow> string \<Rightarrow> bool" where
  "blockLoop c [] name = True"
| "blockLoop c (fre # fres) name =
     (if MatchString c fre name True True \<ge> 0 then False else blockLoop c fres name)"

fun filterLoop ::
  "('re, 'q) collab \<Rightarrow> 're list \<Rightarrow> 're list \<Rightarrow> fileid list \<Rightarrow> fileid list \<Rightarrow> 're world
     \<Rightarrow> fileid list \<times> 're world" where
  "filterLoop c allowFres blockFres [] fnames w = (fnames, w)"
| "filterLoop c allowFres blockFres (fileid # post) fnames w =
     (case ixName c fileid w of (name, w') \<Rightarrow>
        if \<not> allowLoop c allowFres name
        then filterLoop c allowFres blockFres post fnames w'
        else if blockLoop c blockFres name
        then filterLoop c allowFres blockFres post (fnames @ [fileid]) w'
        else filterLoop c allowFres blockFres post fnames w')"

definition filterCandidates ::
  "('re, 'q) collab \<Rightarrow> bool \<Rightarrow> 're list \<Rightarrow> 're list \<Rightarrow> fileid list \<Rightarrow> 're world
     \<Rightarrow> fileid list \<times> 're world" where
  "filterCandidates c verbose allowFres blockFres post w =
     (if length allowFres > 0 \<or> length blockFres > 0
      then (case filterLoop c allowFres blockFres post [] w of (fnames, w') \<Rightarrow>
              (fnames, if verbose then emit (LogMatched (length fnames)) w' else w'))
      else (post, w))"

text \<open>The earlier version: one list of expressions, all of which must match.\<close>

fun fresLoop_old :: "('re, 'q) collab \<Rightarrow> 're list \<Rightarrow> string \<Rightarrow> bool" where
  "fresLoop_old c [] name = True"
| "fresLoop_old c (fre # fres) name =
     (if MatchString c fre name True True < 0 then False else fresLoop_old c fres name)"

fun filterLoop_old ::
  "('re, 'q) collab \<Rightarrow> 're list \<Rightarrow> fileid list \<Rightarrow> fileid list \<Rightarrow> 're world
     \<Rightarrow> fileid list \<times> 're world" where
  "filterLoop_old c fres [] fnames w = (fnames, w)"
| "filterLoop_old c fres (fileid # post) fnames w =
     (case ixName c fileid w of (name, w') \<Rightarrow>
        if fresLoop_old c fres name = True
        then filterLoop_old c fres post (fnames @ [fileid]) w'
        else filterLoop_old c fres post fnames w')"

definition filterCandidates_old ::
  "('re, 'q) collab \<Rightarrow> bool \<Rightarrow> 're list \<Rightarrow> fileid list \<Rightarrow> 're world
     \<Rightarrow> fileid list \<times> 're world" where
  "filterCandidates_old c verbose fres post w =
     (if length fres > 0
      then (case filterLoop_old c fres post [] w of (fnames, w') \<Rightarrow>
              (fnames, if verbose then emit (LogMatched (length fnames)) w' else w'))
      else (post, w))"


section \<open>Walking the candidates\<close>

text \<open>
  One pass through the body of the last loop, up to the test of the budget: the name
  is resolved; with \<^verbatim>\<open>--only-list-candidates\<close> it is printed and \<^verbatim>\<open>g.Limit--\<close>
  runs, otherwise \<^verbatim>\<open>g.File(name)\<close> runs. The decrement is the machine one: at the
  smallest integer it wraps around to the largest.
\<close>

definition visit :: "('re, 'q) collab \<Rightarrow> bool \<Rightarrow> fileid \<Rightarrow> 're world \<Rightarrow> 're world" where
  "visit c onlyList fileid w =
     (case ixName c fileid w of (name, w') \<Rightarrow>
        if onlyList
        then (emit (Wrote name) w')\<lparr>grep := (grep w')\<lparr>Limit := Limit (grep w') - 1\<rparr>\<rparr>
        else (emit (Filed name) w')\<lparr>grep := File c (grep w') name\<rparr>)"

fun searchLoop ::
  "('re, 'q) collab \<Rightarrow> bool \<Rightarrow> fileid list \<Rightarrow> 're world \<Rightarrow> 're world" where
  "searchLoop c onlyList [] w = w"
| "searchLoop c onlyList (fileid # post) w =
     (let w' = visit c onlyList fileid w
      in if Limit (grep w') = 0 then w' else searchLoop c onlyList post w')"

text \<open>
  Modelled from the spec: the budget that stands for "unlimited". The value is set where
  \<^verbatim>\<open>regexp.Grep\<close> registers its flags, in package \<^verbatim>\<open>regexp\<close>, which the command
  only calls. The spec describes the budget as "a mutable integer counting remaining
  allowed match emissions" and "unlimited" as "a sentinel value that never triggers
  termination": a value that is no count of remaining emissions, that is, a negative one.
\<close>

definition unlimited :: "goint \<Rightarrow> bool" where
  "unlimited b = (sint b < 0)"

definition visit_old :: "('re, 'q) collab \<Rightarrow> fileid \<Rightarrow> 're world \<Rightarrow> 're world" where
  "visit_old c fileid w =
     (case ixName c fileid w of (name, w') \<Rightarrow>
        (emit (Filed name) w')\<lparr>grep := File c (grep w') name\<rparr>)"

fun searchLoop_old :: "('re, 'q) collab \<Rightarrow> fileid list \<Rightarrow> 're world \<Rightarrow> 're world" where
  "searchLoop_old c [] w = w"
| "searchLoop_old c (fileid # post) w =
     (let w' = visit_old c fileid w
      in if Limit (grep w') = 0 then w' else searchLoop_old c post w')"


section \<open>The command\<close>

text \<open>
  The index part of \<^verbatim>\<open>Main\<close>, between the compilation of the patterns and the
  filter: the query is built, the index opened and the posting list fetched.
\<close>

definition postingList ::
  "('re, 'q) collab \<Rightarrow> bool \<Rightarrow> bool \<Rightarrow> 're \<Rightarrow> 're world \<Rightarrow> fileid list \<times> 're world" where
  "postingList c verbose brute re w =
     (let q = RegexpQuery c re;
          w1 = (if verbose then emit LogQuery w else w);
          w2 = emit Opened w1;
          post = (if brute then PostingQuery c (QAll c) else PostingQuery c q);
          w3 = emit (Queried brute) w2;
          w4 = (if verbose then emit (LogPost (length post)) w3 else w3)
      in (post, w4))"

text \<open>
  \<^verbatim>\<open>Main\<close> of the current version. The result is the failure that ended the process
  inside \<^verbatim>\<open>Main\<close>, if any, and the world at that moment. \<open>g0\<close> is the
  \<^verbatim>\<open>Grep\<close> value after \<^verbatim>\<open>g.AddFlags()\<close> and \<^verbatim>\<open>flag.Parse()\<close>.
\<close>

definition Main ::
  "('re, 'q) collab \<Rightarrow> flags \<Rightarrow> 're Grep \<Rightarrow> failure option \<times> 're world" where
  "Main c fl g0 =
     (let w0 = \<lparr>grep = g0, trace = []\<rparr> in
      if length (args fl) \<noteq> 1 then (Some UsageExit, w0)
      else case (if cpuProfile fl \<noteq> [] then Create c (cpuProfile fl) else None) of
        Some err \<Rightarrow> (Some (LogFatal err), w0)
      | None \<Rightarrow>
      (case Compile c (contentPattern (iFlag fl) (args fl ! 0)) of
        Inl err \<Rightarrow> (Some (LogFatal err), w0)
      | Inr re \<Rightarrow>
      let w1 = w0\<lparr>grep := (grep w0)\<lparr>Regexp := Some re\<rparr>\<rparr> in
      (case compileFiles c (allowFiles fl) of
        Inl err \<Rightarrow> (Some (LogFatal err), w1)
      | Inr allowFres \<Rightarrow>
      (case compileFiles c (blockFiles fl) of
        Inl err \<Rightarrow> (Some (LogFatal err), w1)
      | Inr blockFres \<Rightarrow>
      (case postingList c (verboseFlag fl) (bruteFlag fl) re w1 of (post, w2) \<Rightarrow>
      (case filterCandidates c (verboseFlag fl) allowFres blockFres post w2 of (post', w3) \<Rightarrow>
        (None, searchLoop c (onlyListCandidates fl) post' w3)))))))"

text \<open>
  \<^verbatim>\<open>func main() { Main(); os.Exit(0) }\<close>: the exit status of the process. The package
  variable \<^verbatim>\<open>matches\<close> is declared and never assigned in this version.
\<close>

definition main :: "('re, 'q) collab \<Rightarrow> flags \<Rightarrow> 're Grep \<Rightarrow> int" where
  "main c fl g0 =
     (case Main c fl g0 of
        (Some f, w) \<Rightarrow> exit_status f
      | (None, w) \<Rightarrow> 0)"

text \<open>
  \<^verbatim>\<open>Main\<close> of the earlier version; its last statement is \<^verbatim>\<open>matches = g.Match\<close>, so
  the third component of the result is the package variable \<^verbatim>\<open>matches\<close> (false
  until assigned).
\<close>

definition Main_old ::
  "('re, 'q) collab \<Rightarrow> flags_old \<Rightarrow> 're Grep \<Rightarrow> failure option \<times> 're world \<times> bool" where
  "Main_old c fl g0 =
     (let w0 = \<lparr>grep = g0, trace = []\<rparr> in
      if length (args_old fl) \<noteq> 1 then (Some UsageExit, w0, False)
      else case (if cpuProfile_old fl \<noteq> [] then Create c (cpuProfile_old fl) else None) of
        Some err \<Rightarrow> (Some (LogFatal err), w0, False)
      | None \<Rightarrow>
      (case Compile c (contentPattern (iFlag_old fl) (args_old fl ! 0)) of
        Inl err \<Rightarrow> (Some (LogFatal err), w0, False)
      | Inr re \<Rightarrow>
      let w1 = w0\<lparr>grep := (grep w0)\<lparr>Regexp := Some re\<rparr>\<rparr> in
      (case compileFiles c (fFlags fl) of
        Inl err \<Rightarrow> (Some (LogFatal err), w1, False)
      | Inr fres \<Rightarrow>
      (case postingList c (verboseFlag_old fl) (bruteFlag_old fl) re w1 of (post, w2) \<Rightarrow>
      (case filterCandidates_old c (verboseFlag_old fl) fres post w2 of (post', w3) \<Rightarrow>
        (let w4 = searchLoop_old c post' w3
         in (None, w4, Match (grep w4))))))))"

text \<open>
  \<^verbatim>\<open>func main() { Main(); if !matches { os.Exit(1) }; os.Exit(0) }\<close>
\<close>

definition main_old :: "('re, 'q) collab \<Rightarrow> flags_old \<Rightarrow> 're Grep \<Rightarrow> int" where
  "main_old c fl g0 =
     (case Main_old c fl g0 of
        (Some f, w, matches) \<Rightarrow> exit_status f
      | (None, w, matches) \<Rightarrow> if \<not> matches then 1 else 0)"


section \<open>A small index for concrete runs\<close>

text \<open>
  A concrete stand-in for the collaborators, to run the command on: an expression is a
  literal that must end the name, compiling fails on a trailing backslash, the index
  holds four files and answers the query for \<^verbatim>\<open>foo\<close> with all of them, and the
  only file whose content matches is \<^verbatim>\<open>a.go\<close>; a match is recorded in \<^verbatim>\<open>Match\<close>
  and counted down from a positive \<^verbatim>\<open>Limit\<close>.
\<close>

definition demo_Compile :: "string \<Rightarrow> string + string" where
  "demo_Compile s =
     (if s \<noteq> [] \<and> last s = CHR 0x5C
      then Inl ''trailing backslash at end of expression''
      else Inr s)"

definition demo_MatchString :: "string \<Rightarrow> string \<Rightarrow> bool \<Rightarrow> bool \<Rightarrow> int" where
  "demo_MatchString re name beginText endText =
     (if length re \<le> length name \<and> drop (length name - length re) name = re
      then int (length name) else - 1)"

definition demo_Name :: "fileid \<Rightarrow> string" where
  "demo_Name fileid =
     (if fileid = 0 then ''a.go''
      else if fileid = 1 then ''b.txt''
      else if fileid = 2 then ''c.go''
      else if fileid = 3 then ''a_test.go''
      else [])"

definition demo_PostingQuery :: "string \<Rightarrow> fileid list" where
  "demo_PostingQuery q = (if q = ''(?m)foo'' \<or> q = ''*'' then [0, 1, 2, 3] else [])"

definition demo_File :: "string Grep \<Rightarrow> string \<Rightarrow> string Grep" where
  "demo_File g name =
     (if name = ''a.go''
      then g\<lparr>Limit := (if 0 < sint (Limit g) then Limit g - 1 else Limit g), Match := True\<rparr>
      else g)"

definition demo :: "(string, string) collab" where
  "demo = \<lparr>Compile = demo_Compile, MatchString = demo_MatchString,
            RegexpQuery = (\<lambda>re. re), QAll = ''*'',
            PostingQuery = demo_PostingQuery, Name = demo_Name,
            File = demo_File, Create = (\<lambda>path. None)\<rparr>"

definition demo_Grep :: "goint \<Rightarrow> string Grep" where
  "demo_Grep limit = \<lparr>Regexp = None, Limit = limit, Match = False\<rparr>"

definition demo_world :: "goint \<Rightarrow> string world" where
  "demo_world limit = \<lparr>grep = demo_Grep limit, trace = []\<rparr>"

definition demo_flags :: "string \<Rightarrow> string list \<Rightarrow> string list \<Rightarrow> bool \<Rightarrow> flags" where
  "demo_flags pat allow block onlyList =
     \<lparr>iFlag = False, onlyListCandidates = onlyList, verboseFlag = False,
      bruteFlag = False, cpuProfile = [], allowFiles = allow, blockFiles = block,
      args = [pat]\<rparr>"

definition demo_flags_old :: "string \<Rightarrow> string list \<Rightarrow> flags_old" where
  "demo_flags_old pat fs =
     \<lparr>iFlag_old = False, verboseFlag_old = False, bruteFlag_old = False,
      cpuProfile_old = [], fFlags = fs, args_old = [pat]\<rparr>"


section \<open>Facts about the filter\<close>

lemma allowLoop_iff:
  "allowLoop c fres name = (\<forall>fre \<in> set fres. 0 \<le> MatchString c fre name True True)"
  by (induction fres) auto

lemma blockLoop_iff:
  "blockLoop c fres name = (\<forall>fre \<in> set fres. MatchString c fre name True True < 0)"
  by (induction fres) auto

lemma filterLoop_fst:
  "fst (filterLoop c a b post fnames w) =
     fnames @ filter (\<lambda>f. allowLoop c a (Name c f) \<and> blockLoop c b (Name c f)) post"
  by (induction post arbitrary: fnames w) (simp_all add: ixName_def)

lemma filterLoop_snd:
  "snd (filterLoop c a b post fnames w) = w\<lparr>trace := trace w @ map Named post\<rparr>"
  by (induction post arbitrary: fnames w) (simp_all add: ixName_def emit_def)

lemmas demo_defs =
  demo_def demo_Compile_def demo_MatchString_def demo_Name_def demo_PostingQuery_def
  demo_File_def demo_Grep_def demo_world_def demo_flags_def demo_flags_old_def

text \<open>
  The filter keeps exactly the candidates whose name passes both inner loops, in the
  order of the posting list; with no expression at all this is every candidate.
\<close>

lemma filterCandidates_fst:
  "fst (filterCandidates c v a b post w) =
     filter (\<lambda>f. allowLoop c a (Name c f) \<and> blockLoop c b (Name c f)) post"
proof (cases "a = [] \<and> b = []")
  case True
  then show ?thesis by (simp add: filterCandidates_def)
next
  case False
  then have "filterCandidates c v a b post w =
      (case filterLoop c a b post [] w of (fnames, w') \<Rightarrow>
              (fnames, if v then emit (LogMatched (length fnames)) w' else w'))"
    by (auto simp: filterCandidates_def)
  then show ?thesis
    using filterLoop_fst [of c a b post "[]" w]
    by (simp add: split_beta)
qed

text \<open>
  Claim C2. A candidate of the posting list that the filter of the current version
  accepts has a name that every allow expression matches
  (\<^verbatim>\<open>MatchString(name, true, true) >= 0\<close>). The statement holds for every allow
  sequence; for the empty one it says nothing, which is why the claim speaks of the
  non-empty ones.
\<close>

theorem allow_all_match:
  assumes "fileid \<in> set (fst (filterCandidates c v allowFres blockFres post w))"
  shows "\<forall>fre \<in> set allowFres. 0 \<le> MatchString c fre (Name c fileid) True True"
  using assms by (simp add: filterCandidates_fst allowLoop_iff)

theorem allow_all_match_witness:
  "2 \<in> set (fst (filterCandidates demo False [''.go'', ''c.go''] [] [0, 1, 2] (demo_world 5)))
   \<and> 0 \<le> MatchString demo ''.go'' (Name demo 2) True True
   \<and> 0 \<le> MatchString demo ''c.go'' (Name demo 2) True True"
proof -
  have h: "2 \<in> set (fst (filterCandidates demo False [''.go'', ''c.go''] [] [0, 1, 2] (demo_world 5)))"
    by (simp add: filterCandidates_def ixName_def emit_def demo_defs)
  from h allow_all_match [OF h] show ?thesis by (simp del: One_nat_def)
qed

text \<open>
  Claim C3. A candidate whose name is matched by some block expression is not in the
  filtered list, whatever the allow expressions say about it: the block loop runs after
  the allow loop has passed and its verdict is final.
\<close>

theorem block_excludes:
  assumes "fre \<in> set blockFres"
    and "0 \<le> MatchString c fre (Name c fileid) True True"
  shows "fileid \<notin> set (fst (filterCandidates c v allowFres blockFres post w))"
proof -
  from assms have "\<not> blockLoop c blockFres (Name c fileid)"
    by (simp add: blockLoop_iff) (meson not_less)
  then show ?thesis by (simp add: filterCandidates_fst)
qed

text \<open>
  The witness is scenario 4: \<^verbatim>\<open>a_test.go\<close> passes the allow expression and is
  rejected by the block expression.
\<close>

theorem block_excludes_witness:
  "''_test.go'' \<in> set [''_test.go'']
   \<and> 0 \<le> MatchString demo ''_test.go'' (Name demo 3) True True
   \<and> allowLoop demo [''.go''] (Name demo 3)
   \<and> 3 \<notin> set (fst (filterCandidates demo False [''.go''] [''_test.go''] [0, 3] (demo_world 5)))"
proof -
  have h1: "''_test.go'' \<in> set [''_test.go'']" by simp
  have h2: "0 \<le> MatchString demo ''_test.go'' (Name demo 3) True True"
    by (simp add: demo_defs)
  have h3: "allowLoop demo [''.go''] (Name demo 3)"
    by (simp add: demo_defs)
  from h1 h2 h3 block_excludes [OF h1 h2, of False "[''.go'']" "[0, 3]" "demo_world 5"]
  show ?thesis by blast
qed

text \<open>
  Claim C4. The filtered list is a subsequence of the posting list: it is obtained by
  deleting elements, so two accepted candidates keep their relative order.
\<close>

theorem filter_subseq:
  "subseq (fst (filterCandidates c v allowFres blockFres post w)) post"
  by (simp add: filterCandidates_fst)

text \<open>
  Claim C5. With no allow and no block expression the posting list is returned as it
  is and the world is untouched: no name is resolved (no \<open>Named\<close> event is added)
  and nothing is logged.
\<close>

theorem no_filters_unchanged:
  "filterCandidates c v [] [] post w = (post, w)"
  by (simp add: filterCandidates_def)

lemma fresLoop_old_eq: "fresLoop_old c fres name = allowLoop c fres name"
  by (induction fres) auto

lemma filterLoop_old_eq:
  "filterLoop_old c fres post fnames w = filterLoop c fres [] post fnames w"
  by (induction post arbitrary: fnames w) (simp_all add: fresLoop_old_eq split: prod.splits)

text \<open>
  Claim C10. The filter of the current version, run with a sequence of compiled
  expressions as allow filters and no block filter, returns what the filter of the
  earlier version returns for the same sequence as its \<^verbatim>\<open>-f\<close> filters: the same
  list, and the same world (the same names resolved, the same diagnostic).
\<close>

theorem allow_only_refines_old:
  "filterCandidates c v fres [] post w = filterCandidates_old c v fres post w"
  by (simp add: filterCandidates_def filterCandidates_old_def filterLoop_old_eq)


section \<open>Facts about the scan\<close>


lemma negative_uint:
  assumes "sint (b :: goint) < 0"
  shows "2 ^ 63 \<le> uint b"
proof (rule ccontr)
  assume "\<not> 2 ^ 63 \<le> uint b"
  then have u: "uint b < 2 ^ 63" by simp
  have "- (2 ^ 63) \<le> (0 :: int)" by simp
  then have l: "- (2 ^ 63) \<le> uint b" by (rule order_trans) simp
  have "sint b = signed_take_bit 63 (uint b)" by (simp add: sint_uint)
  also have "\<dots> = uint b"
    by (rule signed_take_bit_int_eq_self [OF l u])
  finally show False using assms by simp
qed

lemma uint_dec:
  assumes "(b :: goint) \<noteq> 0"
  shows "uint (b - 1) = uint b - 1"
  using assms uint_minus_simple_alt word_le_sub1 by force

lemma visit_list_Limit:
  "Limit (grep (visit c True f w)) = Limit (grep w) - 1"
  by (simp add: visit_def ixName_def emit_def)

lemma visit_file_Limit:
  "Limit (grep (visit c False f w)) = Limit (File c (grep w) (Name c f))"
  by (simp add: visit_def ixName_def emit_def)

lemma visit_trace:
  "trace (visit c onlyList f w) =
     trace w @ [Named f, if onlyList then Wrote (Name c f) else Filed (Name c f)]"
  by (simp add: visit_def ixName_def emit_def)











text \<open>
  While the budget is not zero the scan never leaves the loop early. In search mode the
  collaborator is assumed to leave an unlimited budget unlimited. In list mode the
  command itself counts the budget down, and a budget \<open>b\<close> is zero after exactly
  \<open>uint b\<close> decrements: more than a list of fewer than \<open>uint b\<close> candidates has.
\<close>

lemma searchLoop_file_unlimited:
  assumes "unlimited (Limit (grep w))"
    and "\<forall>g name. unlimited (Limit g) \<longrightarrow> unlimited (Limit (File c g name))"
  shows "trace (searchLoop c False post w) =
           trace w @ concat (map (\<lambda>f. [Named f, Filed (Name c f)]) post)
         \<and> unlimited (Limit (grep (searchLoop c False post w)))"
  using assms(1)
proof (induction post arbitrary: w)
  case Nil
  then show ?case by simp
next
  case (Cons f post)
  let ?w = "visit c False f w"
  from assms(2) Cons.prems have u: "unlimited (Limit (grep ?w))"
    by (simp add: visit_file_Limit)
  then have "Limit (grep ?w) \<noteq> 0" by (auto simp: unlimited_def)
  with Cons.IH [OF u] show ?case
    by (simp add: Let_def visit_trace)
qed

lemma searchLoop_list_all:
  assumes "int (length post) < uint (Limit (grep w))"
  shows "trace (searchLoop c True post w) =
           trace w @ concat (map (\<lambda>f. [Named f, Wrote (Name c f)]) post)"
  using assms
proof (induction post arbitrary: w)
  case Nil
  then show ?case by simp
next
  case (Cons f post)
  let ?w = "visit c True f w"
  from Cons.prems have "0 < uint (Limit (grep w))" by simp
  then have "Limit (grep w) \<noteq> 0" by auto
  then have d: "uint (Limit (grep ?w)) = uint (Limit (grep w)) - 1"
    by (simp add: visit_list_Limit uint_dec)
  with Cons.prems have p: "int (length post) < uint (Limit (grep ?w))" by simp
  then have "0 < uint (Limit (grep ?w))" by linarith
  then have "Limit (grep ?w) \<noteq> 0" by auto
  with Cons.IH [OF p] show ?case
    by (simp add: Let_def visit_trace)
qed

text \<open>
  Claim C7. With an unlimited budget every candidate of the filtered list is processed,
  in list mode (each name is resolved and printed) and in search mode (each name is
  resolved and handed to \<^verbatim>\<open>g.File\<close>), in the order of the list. The bound on the
  length in list mode is the one every Go slice meets: its length is an \<^verbatim>\<open>int\<close>.
\<close>

theorem unlimited_visits_all:
  assumes "unlimited (Limit (grep w))"
    and "\<forall>g name. unlimited (Limit g) \<longrightarrow> unlimited (Limit (File c g name))"
  shows "(int (length post) < 2 ^ 63 \<longrightarrow>
            trace (searchLoop c True post w) =
              trace w @ concat (map (\<lambda>f. [Named f, Wrote (Name c f)]) post))
       \<and> trace (searchLoop c False post w) =
           trace w @ concat (map (\<lambda>f. [Named f, Filed (Name c f)]) post)"
proof -
  from assms(1) have "sint (Limit (grep w)) < 0" by (simp add: unlimited_def)
  then have "2 ^ 63 \<le> uint (Limit (grep w))" by (rule negative_uint)
  then have "int (length post) < 2 ^ 63 \<longrightarrow> int (length post) < uint (Limit (grep w))"
    by linarith
  with searchLoop_list_all [of post w c] searchLoop_file_unlimited [OF assms, of post]
  show ?thesis by blast
qed

theorem unlimited_visits_all_witness:
  "unlimited (Limit (grep (demo_world (- 1))))
   \<and> int (length [0, 1, 2 :: fileid]) < 2 ^ 63
   \<and> trace (searchLoop demo True [0, 1, 2] (demo_world (- 1))) =
       [Named 0, Wrote ''a.go'', Named 1, Wrote ''b.txt'', Named 2, Wrote ''c.go'']
   \<and> trace (searchLoop demo False [0, 1, 2] (demo_world (- 1))) =
       [Named 0, Filed ''a.go'', Named 1, Filed ''b.txt'', Named 2, Filed ''c.go'']"
proof -
  have u: "unlimited (Limit (grep (demo_world (- 1))))"
    by (simp add: unlimited_def demo_defs)
  have k: "\<forall>g name. unlimited (Limit g) \<longrightarrow> unlimited (Limit (File demo g name))"
    by (simp add: unlimited_def demo_def demo_File_def)
  have s: "int (length [0, 1, 2 :: fileid]) < 2 ^ 63" by simp
  have t: "trace (demo_world (- 1)) = []" by (simp add: demo_defs)
  have n: "Name demo 0 = ''a.go''" "Name demo 1 = ''b.txt''" "Name demo 2 = ''c.go''"
    by (simp_all add: demo_defs)
  from unlimited_visits_all [OF u k, of "[0, 1, 2]"] s
  have "trace (searchLoop demo True [0, 1, 2] (demo_world (- 1))) =
       trace (demo_world (- 1)) @ concat (map (\<lambda>f. [Named f, Wrote (Name demo f)]) [0, 1, 2])
     \<and> trace (searchLoop demo False [0, 1, 2] (demo_world (- 1))) =
       trace (demo_world (- 1)) @ concat (map (\<lambda>f. [Named f, Filed (Name demo f)]) [0, 1, 2])"
    by blast
  with u s show ?thesis by (simp add: t n)
qed


section \<open>Facts about the command\<close>

lemma compileLoop_valid:
  assumes "\<forall>x \<in> set xs. \<exists>fre. Compile c x = Inr fre"
  shows "\<exists>fres. compileLoop c xs acc = Inr fres"
  using assms by (induction xs arbitrary: acc) auto

lemma compileLoop_first_invalid:
  assumes "\<forall>x \<in> set xs. \<exists>fre. Compile c x = Inr fre" and "Compile c s = Inl err"
  shows "compileLoop c (xs @ s # ys) acc = Inl err"
  using assms by (induction xs arbitrary: acc) auto

lemma compileFiles_valid:
  assumes "\<forall>x \<in> set xs. \<exists>fre. Compile c x = Inr fre"
  shows "\<exists>fres. compileFiles c xs = Inr fres"
  using compileLoop_valid [OF assms] by (simp add: compileFiles_def)

lemma compileFiles_first_invalid:
  assumes "\<forall>x \<in> set xs. \<exists>fre. Compile c x = Inr fre" and "Compile c s = Inl err"
  shows "compileFiles c (xs @ s # ys) = Inl err"
  using compileLoop_first_invalid [OF assms] by (simp add: compileFiles_def)

lemma compileLoop_Inr:
  "compileLoop c xs acc = Inr fres \<Longrightarrow> map Inr fres = map Inr acc @ map (Compile c) xs"
proof (induction xs arbitrary: acc)
  case Nil
  then show ?case by simp
next
  case (Cons x xs)
  then show ?case by (auto split: sum.splits)
qed

lemma compileFiles_Inr:
  "compileFiles c files = Inr fres \<Longrightarrow> map Inr fres = map (Compile c) files"
  using compileLoop_Inr [of c files "[]" fres]
  by (simp add: compileFiles_def split: if_splits)

lemma Main_failure_trace:
  "fst (Main c fl g0) \<noteq> None \<Longrightarrow> trace (snd (Main c fl g0)) = []"
  by (auto simp: Main_def Let_def split: if_splits option.splits sum.splits prod.splits)

lemma filters_first_invalid:
  assumes "allow @ block = xs @ s # ys"
    and "\<forall>x \<in> set xs. \<exists>fre. Compile c x = Inr fre"
    and "Compile c s = Inl err"
  shows "compileFiles c allow = Inl err
       \<or> (\<exists>fres. compileFiles c allow = Inr fres) \<and> compileFiles c block = Inl err"
proof -
  from assms(1) consider
      (in_allow) us where "allow = xs @ s # us"
    | (in_block) us where "xs = allow @ us" "block = us @ s # ys"
    by (auto simp: append_eq_append_conv2 append_eq_Cons_conv Cons_eq_append_conv)
  then show ?thesis
  proof cases
    case in_allow
    then show ?thesis using compileFiles_first_invalid [OF assms(2,3)] by simp
  next
    case in_block
    with assms(2) have a: "\<forall>x \<in> set allow. \<exists>fre. Compile c x = Inr fre"
      and u: "\<forall>x \<in> set us. \<exists>fre. Compile c x = Inr fre" by auto
    from compileFiles_valid [OF a] compileFiles_first_invalid [OF u assms(3)] in_block
    show ?thesis by simp
  qed
qed

text \<open>
  Claim C9. When some file name expression of the allow or the block sequence does not
  compile, the run ends in a failure and with an empty trace: the index was not opened
  or queried, no name was resolved and no file searched. The allow sequence is compiled
  before the block sequence, so the first invalid expression \<open>s\<close> is the first one of
  \<open>allowFiles @ blockFiles\<close>; when the arguments, the profile and the content
  pattern are in order, it is the error of \<open>s\<close> that \<^verbatim>\<open>log.Fatal\<close> reports.
\<close>

theorem invalid_filter_is_fatal:
  assumes "allowFiles fl @ blockFiles fl = xs @ s # ys"
    and "\<forall>x \<in> set xs. \<exists>fre. Compile c x = Inr fre"
    and "Compile c s = Inl err"
  shows "fst (Main c fl g0) \<noteq> None
       \<and> trace (snd (Main c fl g0)) = []
       \<and> (length (args fl) = 1
            \<and> (cpuProfile fl = [] \<or> Create c (cpuProfile fl) = None)
            \<and> Compile c (contentPattern (iFlag fl) (args fl ! 0)) = Inr re
          \<longrightarrow> Main c fl g0
                = (Some (LogFatal err), \<lparr>grep = g0\<lparr>Regexp := Some re\<rparr>, trace = []\<rparr>))"
proof -
  note bad = filters_first_invalid [OF assms]
  have 1: "fst (Main c fl g0) \<noteq> None"
    using bad
    by (auto simp: Main_def Let_def split: if_splits option.splits sum.splits prod.splits)
  have 3: "length (args fl) = 1
            \<and> (cpuProfile fl = [] \<or> Create c (cpuProfile fl) = None)
            \<and> Compile c (contentPattern (iFlag fl) (args fl ! 0)) = Inr re
          \<longrightarrow> Main c fl g0
                = (Some (LogFatal err), \<lparr>grep = g0\<lparr>Regexp := Some re\<rparr>, trace = []\<rparr>)"
    using bad by (auto simp: Main_def Let_def)
  from 1 Main_failure_trace [OF 1] 3 show ?thesis by blast
qed

theorem invalid_filter_is_fatal_witness:
  "Compile demo [CHR ''x'', CHR 0x5C] = Inl ''trailing backslash at end of expression''
   \<and> Main demo (demo_flags ''foo'' [''.go''] [[CHR ''x'', CHR 0x5C], ''_test.go''] False)
        (demo_Grep 5)
     = (Some (LogFatal ''trailing backslash at end of expression''),
        \<lparr>grep = (demo_Grep 5)\<lparr>Regexp := Some ''(?m)foo''\<rparr>, trace = []\<rparr>)"
proof -
  let ?fl = "demo_flags ''foo'' [''.go''] [[CHR ''x'', CHR 0x5C], ''_test.go''] False"
  have h1: "allowFiles ?fl @ blockFiles ?fl = [''.go''] @ [CHR ''x'', CHR 0x5C] # [''_test.go'']"
    by (simp add: demo_flags_def)
  have h2: "\<forall>x \<in> set [''.go'']. \<exists>fre. Compile demo x = Inr fre"
    by (simp add: demo_def demo_Compile_def)
  have h3: "Compile demo [CHR ''x'', CHR 0x5C] = Inl ''trailing backslash at end of expression''"
    by (simp add: demo_def demo_Compile_def)
  have h4: "length (args ?fl) = 1" by (simp add: demo_flags_def)
  have h5: "cpuProfile ?fl = [] \<or> Create demo (cpuProfile ?fl) = None"
    by (simp add: demo_flags_def)
  have h6: "Compile demo (contentPattern (iFlag ?fl) (args ?fl ! 0)) = Inr ''(?m)foo''"
    by (simp add: demo_flags_def demo_def demo_Compile_def contentPattern_def)
  from h3 h4 h5 h6 invalid_filter_is_fatal [OF h1 h2 h3, of "demo_Grep 5" "''(?m)foo''"]
  show ?thesis by blast
qed

text \<open>
  Claim C8. The pattern that is compiled is \<^verbatim>\<open>(?m)\<close> followed by the argument, with
  \<^verbatim>\<open>(?i)\<close> in front exactly when \<^verbatim>\<open>-i\<close> is set. When it does not compile, the run
  ends in a failure with exit status 1 and an empty trace (no index call, no file
  searched); unless creating the profile failed before, the failure is
  \<^verbatim>\<open>log.Fatal\<close> of the compile error.
\<close>

theorem content_pattern:
  "contentPattern i raw = (if i then ''(?i)(?m)'' @ raw else ''(?m)'' @ raw)
   \<and> (length (args fl) = 1
        \<and> Compile c (contentPattern (iFlag fl) (args fl ! 0)) = Inl err
      \<longrightarrow> fst (Main c fl g) \<noteq> None
          \<and> trace (snd (Main c fl g)) = []
          \<and> main c fl g = 1
          \<and> (cpuProfile fl = [] \<or> Create c (cpuProfile fl) = None
              \<longrightarrow> Main c fl g = (Some (LogFatal err), \<lparr>grep = g, trace = []\<rparr>)))"
  by (auto simp: contentPattern_def Main_def main_def Let_def split: option.splits)

theorem content_pattern_witness:
  "contentPattern True ''foo'' = ''(?i)(?m)foo''
   \<and> contentPattern False ''foo'' = ''(?m)foo''
   \<and> Compile demo (contentPattern False [CHR ''f'', CHR 0x5C])
       = Inl ''trailing backslash at end of expression''
   \<and> Main demo (demo_flags [CHR ''f'', CHR 0x5C] [] [] False) (demo_Grep 5)
       = (Some (LogFatal ''trailing backslash at end of expression''),
          \<lparr>grep = demo_Grep 5, trace = []\<rparr>)
   \<and> main demo (demo_flags [CHR ''f'', CHR 0x5C] [] [] False) (demo_Grep 5) = 1"
proof -
  let ?fl = "demo_flags [CHR ''f'', CHR 0x5C] [] [] False"
  have h1: "length (args ?fl) = 1" by (simp add: demo_flags_def)
  have h2: "Compile demo (contentPattern (iFlag ?fl) (args ?fl ! 0))
      = Inl ''trailing backslash at end of expression''"
    by (simp add: demo_flags_def demo_def demo_Compile_def contentPattern_def)
  have h3: "cpuProfile ?fl = [] \<or> Create demo (cpuProfile ?fl) = None"
    by (simp add: demo_flags_def)
  have h4: "Compile demo (contentPattern False [CHR ''f'', CHR 0x5C])
       = Inl ''trailing backslash at end of expression''"
    by (simp add: demo_def demo_Compile_def contentPattern_def)
  have p: "contentPattern True ''foo'' = ''(?i)(?m)foo''"
    using content_pattern [where i = True and raw = "''foo''", THEN conjunct1] by simp
  have q: "contentPattern False ''foo'' = ''(?m)foo''"
    using content_pattern [where i = False and raw = "''foo''", THEN conjunct1] by simp
  from h1 h2 h3
    content_pattern [where fl = ?fl and c = demo and g = "demo_Grep 5"
      and err = "''trailing backslash at end of expression''", THEN conjunct2]
  have "Main demo ?fl (demo_Grep 5)
       = (Some (LogFatal ''trailing backslash at end of expression''),
          \<lparr>grep = demo_Grep 5, trace = []\<rparr>)
     \<and> main demo ?fl (demo_Grep 5) = 1"
    by blast
  with p q h4 show ?thesis by blast
qed

text \<open>
  The exit status of the two versions. The current one ends every run that returns
  from \<^verbatim>\<open>Main\<close> with 0; the earlier one with 0 or 1 according to \<^verbatim>\<open>g.Match\<close>.
\<close>

lemma main_status:
  "main c fl g0 =
     (if length (args fl) \<noteq> 1 then 2 else if fst (Main c fl g0) = None then 0 else 1)"
  by (auto simp: Main_def main_def Let_def split: option.splits sum.splits prod.splits)

lemma main_old_status:
  "main_old c fl g0 =
     (if length (args_old fl) \<noteq> 1 then 2
      else if fst (Main_old c fl g0) \<noteq> None then 1
      else if Match (grep (fst (snd (Main_old c fl g0)))) then 0 else 1)"
  by (auto simp: Main_old_def main_old_def Let_def split: option.splits sum.splits prod.splits)

text \<open>
  Claim C1. The exit status is 0 when a match was recorded, 1 when the search completed
  without one and 2 on a usage error. The run below is scenario 6: the query for
  \<^verbatim>\<open>bar\<close> yields no candidate, the run completes and no match is recorded. The
  earlier version exits with 1; the current version exits with 0.
\<close>

theorem exit_status_without_match:
  "Main demo (demo_flags ''bar'' [] [] False) (demo_Grep (- 1))
     = (None, \<lparr>grep = \<lparr>Regexp = Some ''(?m)bar'', Limit = - 1, Match = False\<rparr>,
               trace = [Opened, Queried False]\<rparr>)
   \<and> main demo (demo_flags ''bar'' [] [] False) (demo_Grep (- 1)) = 0
   \<and> main_old demo (demo_flags_old ''bar'' []) (demo_Grep (- 1)) = 1"
  by (simp add: Main_def main_def Main_old_def main_old_def contentPattern_def compileFiles_def
      postingList_def filterCandidates_def filterCandidates_old_def emit_def demo_defs)

end
